theory Spec2Isabelle
  imports Main "HOL-Library.Sublist"
begin

section \<open>Data model of \<^verbatim>\<open>src/mod.ts\<close>\<close>

text \<open>
  The severity enumeration \<^verbatim>\<open>enum LogType { Default, Info, Warn, Error }\<close>.
  TypeScript numbers the members 0..3 and gives the enum a reverse mapping
  \<^verbatim>\<open>LogType[n]\<close> from the number to the member's name.
\<close>

datatype LogType = Default | Info | Warn | Error

fun LogType_name :: "LogType \<Rightarrow> string" where
  "LogType_name Default = ''Default''"
| "LogType_name Info = ''Info''"
| "LogType_name Warn = ''Warn''"
| "LogType_name Error = ''Error''"

text \<open>
  \<^verbatim>\<open>String.prototype.toUpperCase\<close>, on the ASCII letters (the only characters the
  program applies it to are those of the four member names).
\<close>

definition toUpperCase :: "string \<Rightarrow> string" where
  "toUpperCase s =
     map (\<lambda>c. if (97::nat) \<le> of_char c \<and> of_char c \<le> (122::nat)
              then char_of (of_char c - (32::nat)) else c) s"

text \<open>
  \<^verbatim>\<open>type PrepareLog = Omit<LogObject, "log" | "timestamp">\<close> and
  \<^verbatim>\<open>interface LogObject\<close>. The optional field \<^verbatim>\<open>from?: string\<close> is a
  \<open>string option\<close>, \<open>None\<close> standing for \<^verbatim>\<open>undefined\<close>.
\<close>

record PrepareLog =
  msg :: string
  "from" :: "string option"
  type :: LogType

record LogObject = PrepareLog +
  log :: string
  timestamp :: string

text \<open>
  \<^verbatim>\<open>interface LoggerOptions\<close>: both fields are optional. \<^verbatim>\<open>maxStackSize\<close> is a
  JavaScript number; the model covers its integer values.
\<close>

record LoggerOptions =
  maxStackSize :: "int option"
  colored :: "bool option"

text \<open>
  The clock: what \<^verbatim>\<open>new Date()\<close> shows to \<^verbatim>\<open>prepareLog\<close>, namely the string
  \<^verbatim>\<open>date.toLocaleString(OSLocale)\<close> and the number \<^verbatim>\<open>date.getMilliseconds()\<close>.
\<close>

record Date =
  toLocaleString :: string
  getMilliseconds :: nat

text \<open>The decimal rendering of a number inside a template literal.\<close>

fun showNat :: "nat \<Rightarrow> string" where
  "showNat n =
     (if n < 10 then [char_of (48 + n)]
      else showNat (n div 10) @ [char_of (48 + n mod 10)])"

declare showNat.simps [simp del]

text \<open>
  The colour backend \<^verbatim>\<open>chalk\<close> is an external package: the five decorations the
  program uses are parameters of the model.
\<close>

record chalk =
  blue :: "string \<Rightarrow> string"
  yellowBright :: "string \<Rightarrow> string"
  red :: "string \<Rightarrow> string"
  yellow :: "string \<Rightarrow> string"
  cyan :: "string \<Rightarrow> string"

text \<open>The table \<^verbatim>\<open>Colorize\<close>.\<close>

fun Colorize_coloredType :: "chalk \<Rightarrow> LogType \<Rightarrow> string \<Rightarrow> string" where
  "Colorize_coloredType ch Default = (\<lambda>t. t)"
| "Colorize_coloredType ch Info = blue ch"
| "Colorize_coloredType ch Warn = yellowBright ch"
| "Colorize_coloredType ch Error = red ch"

definition Colorize_timestamp :: "chalk \<Rightarrow> string \<Rightarrow> string" where
  "Colorize_timestamp ch = yellow ch"

definition Colorize_from :: "chalk \<Rightarrow> string \<Rightarrow> string" where
  "Colorize_from ch = cyan ch"

section \<open>The store, the console and the subscribers\<close>

text \<open>
  Arrays and records are objects, held by reference. \<^verbatim>\<open>generate_array\<close> hands
  out the logger's own array and \<^verbatim>\<open>snapshot\<close> a new array with the same
  elements, and the elements of an array of records are references to the
  records. So the store has two parts, both addressed by number: \<open>cells\<close> gives
  the elements of each array, which are addresses of records, and \<open>objs\<close> gives
  the fields of each record. \<open>fresh\<close> is the next unused address, for both.

  The world also holds the lines written by \<^verbatim>\<open>console.log\<close> (oldest first) and
  the state \<open>subs\<close> that the subscribers' callbacks own.
\<close>

type_synonym addr = nat

record 's world =
  cells :: "addr \<Rightarrow> addr list"
  objs :: "addr \<Rightarrow> LogObject"
  fresh :: addr
  console :: "string list"
  subs :: 's

text \<open>The records that an array holds, in order.\<close>

definition array_records :: "addr \<Rightarrow> 's world \<Rightarrow> LogObject list" where
  "array_records a w = map (objs w) (cells w a)"

text \<open>
  A listener is called with the record; it can look at the logger's buffer (as
  \<^verbatim>\<open>snapshot\<close> would show it) and at the console, and it changes its own state.
  It is given the fields of the record and of the records of the buffer as they
  are when it is called.
\<close>

type_synonym 's listener = "LogObject \<Rightarrow> LogObject list \<Rightarrow> string list \<Rightarrow> 's \<Rightarrow> 's"

text \<open>
  A \<^verbatim>\<open>Logger\<close> object: the private field \<^verbatim>\<open>logarr\<close> (a reference to an array),
  the constructor's \<^verbatim>\<open>options\<close> (the whole object is optional), and the
  listeners kept by the base class \<^verbatim>\<open>EventEmitter\<close>, in subscription order.
\<close>

record 's Logger =
  logarr :: addr
  options :: "LoggerOptions option"
  listeners :: "(string \<times> 's listener) list"

definition array_alloc :: "addr list \<Rightarrow> 's world \<Rightarrow> addr \<times> 's world" where
  "array_alloc xs w =
     (fresh w, w\<lparr>cells := (cells w)(fresh w := xs), fresh := Suc (fresh w)\<rparr>)"

text \<open>An object literal is a new record.\<close>

definition object_alloc :: "LogObject \<Rightarrow> 's world \<Rightarrow> addr \<times> 's world" where
  "object_alloc r w =
     (fresh w, w\<lparr>objs := (objs w)(fresh w := r), fresh := Suc (fresh w)\<rparr>)"

text \<open>\<^verbatim>\<open>Array.prototype.shift\<close> removes the first element; an empty array stays empty.\<close>

definition array_shift :: "addr \<Rightarrow> 's world \<Rightarrow> 's world" where
  "array_shift a w = w\<lparr>cells := (cells w)(a := tl (cells w a))\<rparr>"

definition array_push :: "addr \<Rightarrow> addr \<Rightarrow> 's world \<Rightarrow> 's world" where
  "array_push a x w = w\<lparr>cells := (cells w)(a := cells w a @ [x])\<rparr>"

definition console_log :: "string \<Rightarrow> 's world \<Rightarrow> 's world" where
  "console_log line w = w\<lparr>console := console w @ [line]\<rparr>"

text \<open>\<^verbatim>\<open>Array.prototype.join\<close>.\<close>

fun join :: "string \<Rightarrow> string list \<Rightarrow> string" where
  "join sep [] = []"
| "join sep [x] = x"
| "join sep (x # y # ys) = x @ sep @ join sep (y # ys)"

text \<open>
  Modelled from the spec: \<^verbatim>\<open>EventEmitter.on\<close> of the package
  \<^verbatim>\<open>@denosaurs/event\<close>, which \<^verbatim>\<open>Logger\<close> extends and whose code is not in the
  repository. A subscriber registers a callback for an event name; the
  callbacks are kept in subscription order (section 4.4 and 6 of the spec).
\<close>

definition on :: "string \<Rightarrow> 's listener \<Rightarrow> 's Logger \<Rightarrow> 's Logger" where
  "on name cb L = L\<lparr>listeners := listeners L @ [(name, cb)]\<rparr>"

text \<open>
  Modelled from the spec: \<^verbatim>\<open>EventEmitter.emit\<close> of the same package. Section 4.4
  of the spec: all current subscribers are notified synchronously with the
  record, in subscription order. \<open>notify\<close> is the call of one listener; the
  payload is the reference to the record.
\<close>

definition notify ::
  "string \<Rightarrow> addr \<Rightarrow> 's Logger \<Rightarrow> 's world \<Rightarrow> string \<times> 's listener \<Rightarrow> 's world" where
  "notify name payload L w l =
     (if fst l = name
      then w\<lparr>subs := (snd l) (objs w payload) (array_records (logarr L) w) (console w)
                         (subs w)\<rparr>
      else w)"

definition emit :: "string \<Rightarrow> addr \<Rightarrow> 's Logger \<Rightarrow> 's world \<Rightarrow> 's world" where
  "emit name payload L w = foldl (notify name payload L) w (listeners L)"

section \<open>The class \<^verbatim>\<open>Logger\<close>\<close>

text \<open>
  The constructor: \<^verbatim>\<open>private logarr: LogObject[] = []\<close> allocates the buffer,
  \<^verbatim>\<open>options\<close> is stored as given.
\<close>

definition Logger_new :: "LoggerOptions option \<Rightarrow> 's world \<Rightarrow> 's Logger \<times> 's world" where
  "Logger_new opts w =
     (let (a, w') = array_alloc [] w
      in (\<lparr>logarr = a, options = opts, listeners = []\<rparr>, w'))"

text \<open>\<^verbatim>\<open>this.options?.colored\<close> in a condition: true only for the value \<^verbatim>\<open>true\<close>.\<close>

definition options_colored :: "'s Logger \<Rightarrow> bool" where
  "options_colored L =
     (case options L of
        None \<Rightarrow> False
      | Some opts \<Rightarrow> (case colored opts of None \<Rightarrow> False | Some b \<Rightarrow> b))"

text \<open>
  \<^verbatim>\<open>this.options?.maxStackSize || 500\<close>: \<^verbatim>\<open>||\<close> takes its right operand when the
  left one is falsy, which for an integer means \<^verbatim>\<open>undefined\<close> or 0.
\<close>

definition options_maxStackSize :: "'s Logger \<Rightarrow> int" where
  "options_maxStackSize L =
     (case options L of
        None \<Rightarrow> 500
      | Some opts \<Rightarrow>
          (case maxStackSize opts of
             None \<Rightarrow> 500
           | Some n \<Rightarrow> if n = 0 then 500 else n))"

text \<open>
  \<^verbatim>\<open>prepareLog\<close>. The condition \<^verbatim>\<open>if (log.from)\<close> is a truthiness test: it fails
  for \<^verbatim>\<open>undefined\<close> and for the empty string. The function computes the fields
  of the record it returns; the record itself, a new object, is allocated where
  \<^verbatim>\<open>createLog\<close> receives it.
\<close>

definition prepareLog :: "chalk \<Rightarrow> Date \<Rightarrow> 's Logger \<Rightarrow> PrepareLog \<Rightarrow> LogObject" where
  "prepareLog ch date L lg =
     (let timestamp = toLocaleString date @ ''.'' @ showNat (getMilliseconds date);
          logBuilder = [];
          ty = toUpperCase (LogType_name (type lg));
          logBuilder =
            (if type lg \<noteq> Default
             then (if options_colored L
                   then logBuilder @ Colorize_coloredType ch (type lg) ty
                   else logBuilder @ ty) @ '': ''
             else logBuilder);
          logBuilder =
            (if options_colored L
             then logBuilder @ ''['' @ Colorize_timestamp ch timestamp @ '']''
             else logBuilder @ ''['' @ timestamp @ '']'');
          logBuilder =
            (if from lg \<noteq> None \<and> from lg \<noteq> Some []
             then (if options_colored L
                   then (logBuilder @ '' '') @ ''('' @ Colorize_from ch (the (from lg)) @ ''): ''
                   else (logBuilder @ '' '') @ ''('' @ the (from lg) @ ''): '')
             else logBuilder @ '': '');
          logBuilder = logBuilder @ msg lg
      in \<lparr>msg = msg lg, from = from lg, type = type lg,
          log = logBuilder, timestamp = timestamp\<rparr>)"

text \<open>
  \<^verbatim>\<open>createLog(type)(msg, from)\<close>; \<open>date\<close> is the clock reading of this call.
  \<^verbatim>\<open>preLog\<close> is a temporary object that only \<^verbatim>\<open>prepareLog\<close> reads: it is a value
  here. \<^verbatim>\<open>readyLog\<close> is the reference to the new record: it is what is pushed
  onto the buffer and what is given to \<^verbatim>\<open>emit\<close>.
\<close>

definition createLog ::
  "chalk \<Rightarrow> 's Logger \<Rightarrow> LogType \<Rightarrow> string \<Rightarrow> string option \<Rightarrow> Date \<Rightarrow> 's world \<Rightarrow> 's world" where
  "createLog ch L ty m f date w =
     (let preLog = \<lparr>msg = m, from = f, type = ty\<rparr>;
          (readyLog, w0) = object_alloc (prepareLog ch date L preLog) w;
          w1 = (if int (length (cells w0 (logarr L))) > options_maxStackSize L
                then array_shift (logarr L) w0 else w0);
          w2 = array_push (logarr L) readyLog w1;
          w3 = console_log (log (objs w2 readyLog)) w2
      in emit ''log'' readyLog L w3)"

text \<open>The four public methods (\<^verbatim>\<open>log\<close> is named \<open>log_method\<close>: \<open>log\<close> is the field).\<close>

definition log_method ::
  "chalk \<Rightarrow> 's Logger \<Rightarrow> string \<Rightarrow> string option \<Rightarrow> Date \<Rightarrow> 's world \<Rightarrow> 's world" where
  "log_method ch L m f = createLog ch L Default m f"

definition error ::
  "chalk \<Rightarrow> 's Logger \<Rightarrow> string \<Rightarrow> string option \<Rightarrow> Date \<Rightarrow> 's world \<Rightarrow> 's world" where
  "error ch L m f = createLog ch L Error m f"

definition info ::
  "chalk \<Rightarrow> 's Logger \<Rightarrow> string \<Rightarrow> string option \<Rightarrow> Date \<Rightarrow> 's world \<Rightarrow> 's world" where
  "info ch L m f = createLog ch L Info m f"

definition warn ::
  "chalk \<Rightarrow> 's Logger \<Rightarrow> string \<Rightarrow> string option \<Rightarrow> Date \<Rightarrow> 's world \<Rightarrow> 's world" where
  "warn ch L m f = createLog ch L Warn m f"

text \<open>\<^verbatim>\<open>generate\<close>: the \<^verbatim>\<open>forEach\<close> loop pushes each line onto \<^verbatim>\<open>logs\<close>.\<close>

definition generate :: "'s Logger \<Rightarrow> 's world \<Rightarrow> string" where
  "generate L w =
     (let logs = foldl (\<lambda>logs l. logs @ [log (objs w l)]) [] (cells w (logarr L))
      in join [CHR 0x0A] logs)"

text \<open>\<^verbatim>\<open>generate_array\<close> returns the reference held in \<^verbatim>\<open>this.logarr\<close>.\<close>

definition generate_array :: "'s Logger \<Rightarrow> 's world \<Rightarrow> addr" where
  "generate_array L w = logarr L"

text \<open>
  \<^verbatim>\<open>snapshot(format?: boolean)\<close>: the joined string when \<^verbatim>\<open>format\<close> is truthy,
  otherwise the spread \<^verbatim>\<open>[...this.logarr]\<close>, a new array with the same
  elements: the references are copied, the records are not.
\<close>

datatype snapshot_result = Formatted string | Records addr

definition snapshot :: "bool option \<Rightarrow> 's Logger \<Rightarrow> 's world \<Rightarrow> snapshot_result \<times> 's world" where
  "snapshot format L w =
     (if format = Some True
      then (let logs = map (\<lambda>l. log (objs w l)) (cells w (logarr L))
            in (Formatted (join [CHR 0x0A] logs), w))
      else (let (a, w') = array_alloc (cells w (logarr L)) w
            in (Records a, w')))"

section \<open>Sequences of calls\<close>

text \<open>
  A call of one of the four public methods, with its arguments and the clock
  reading it meets; \<open>run\<close> performs a list of calls one after the other on
  the same logger.
\<close>

datatype entry = LogM | InfoM | WarnM | ErrorM

type_synonym call = "entry \<times> string \<times> string option \<times> Date"

fun invoke :: "chalk \<Rightarrow> 's Logger \<Rightarrow> call \<Rightarrow> 's world \<Rightarrow> 's world" where
  "invoke ch L (LogM, m, f, d) w = log_method ch L m f d w"
| "invoke ch L (InfoM, m, f, d) w = info ch L m f d w"
| "invoke ch L (WarnM, m, f, d) w = warn ch L m f d w"
| "invoke ch L (ErrorM, m, f, d) w = error ch L m f d w"

fun run :: "chalk \<Rightarrow> 's Logger \<Rightarrow> call list \<Rightarrow> 's world \<Rightarrow> 's world" where
  "run ch L [] w = w"
| "run ch L (c # cs) w = run ch L cs (invoke ch L c w)"

text \<open>The record that a call builds.\<close>

fun entry_type :: "entry \<Rightarrow> LogType" where
  "entry_type LogM = Default"
| "entry_type InfoM = Info"
| "entry_type WarnM = Warn"
| "entry_type ErrorM = Error"

fun record_of :: "chalk \<Rightarrow> 's Logger \<Rightarrow> call \<Rightarrow> LogObject" where
  "record_of ch L (k, m, f, d) = prepareLog ch d L \<lparr>msg = m, from = f, type = entry_type k\<rparr>"

text \<open>A world with nothing allocated and nothing written.\<close>

definition empty_world :: "'s \<Rightarrow> 's world" where
  "empty_world s =
     \<lparr>cells = (\<lambda>a. []),
      objs = (\<lambda>a. \<lparr>msg = [], from = None, type = Default, log = [], timestamp = []\<rparr>),
      fresh = 0, console = [], subs = s\<rparr>"

text \<open>A colour backend that wraps its argument in ANSI escape sequences.\<close>

definition ansi :: "nat \<Rightarrow> string \<Rightarrow> string" where
  "ansi n s = [CHR 0x1B] @ ''['' @ showNat n @ ''m'' @ s @ [CHR 0x1B] @ ''[39m''"

definition ansi_chalk :: chalk where
  "ansi_chalk = \<lparr>blue = ansi 34, yellowBright = ansi 93, red = ansi 31,
                 yellow = ansi 33, cyan = ansi 36\<rparr>"

text \<open>The identity backend: what \<^verbatim>\<open>chalk\<close> is when the terminal has no colours.\<close>

definition plain_chalk :: chalk where
  "plain_chalk = \<lparr>blue = (\<lambda>s. s), yellowBright = (\<lambda>s. s), red = (\<lambda>s. s),
                  yellow = (\<lambda>s. s), cyan = (\<lambda>s. s)\<rparr>"

text \<open>The clock reading of the example in the module's documentation.\<close>

definition example_date :: Date where
  "example_date = \<lparr>toLocaleString = ''08.03.2024, 21:07:21'', getMilliseconds = 64\<rparr>"

text \<open>
  What lines 189 to 193 of \<^verbatim>\<open>createLog\<close> do to the contents of the buffer: one
  \<^verbatim>\<open>shift\<close> when the length is above the threshold, then the \<^verbatim>\<open>push\<close>.
\<close>

definition insert_step :: "int \<Rightarrow> 'a list \<Rightarrow> 'a \<Rightarrow> 'a list" where
  "insert_step cap buf r = (if int (length buf) > cap then tl buf else buf) @ [r]"

section \<open>Callers\<close>

text \<open>
  A caller that holds a reference to an array can write to it (\<^verbatim>\<open>push\<close>,
  \<^verbatim>\<open>pop\<close>, \<^verbatim>\<open>splice\<close>, an assignment to an index or to \<^verbatim>\<open>length\<close>): whatever it
  does, the array at that address has some new elements afterwards.
\<close>

definition array_set :: "addr \<Rightarrow> addr list \<Rightarrow> 's world \<Rightarrow> 's world" where
  "array_set a xs w = w\<lparr>cells := (cells w)(a := xs)\<rparr>"

text \<open>
  A caller that holds a reference to a record, such as an element of an array
  it was given, can assign to its fields (the interface \<^verbatim>\<open>LogObject\<close> has no
  \<^verbatim>\<open>readonly\<close> field and no record is frozen): whatever it does, the record at that
  address has some new fields afterwards.
\<close>

definition object_set :: "addr \<Rightarrow> LogObject \<Rightarrow> 's world \<Rightarrow> 's world" where
  "object_set r v w = w\<lparr>objs := (objs w)(r := v)\<rparr>"

text \<open>
  What a program does with a logger: it calls a logging method, asks for
  \<^verbatim>\<open>generate\<close>, \<^verbatim>\<open>generate_array\<close> or \<^verbatim>\<open>snapshot\<close>, or writes to an array or to
  a record it holds. An operation of the logger shows a value to the caller:
  nothing, a string, or an array (its address, its elements and the records
  they refer to, as they are when it is returned).
\<close>

datatype op =
    Call call
  | Generate
  | GenerateArray
  | Snapshot "bool option"
  | Mutate addr "addr list"
  | MutateRecord addr LogObject

datatype observation = NoValue | Text string | Array addr "addr list" "LogObject list"

datatype target = ArrayAt addr | RecordAt addr

fun mutates :: "op \<Rightarrow> target option" where
  "mutates (Mutate a xs) = Some (ArrayAt a)"
| "mutates (MutateRecord r v) = Some (RecordAt r)"
| "mutates (Call c) = None"
| "mutates Generate = None"
| "mutates GenerateArray = None"
| "mutates (Snapshot fmt) = None"

fun exec :: "chalk \<Rightarrow> 's Logger \<Rightarrow> op \<Rightarrow> 's world \<Rightarrow> observation \<times> 's world" where
  "exec ch L (Call c) w = (NoValue, invoke ch L c w)"
| "exec ch L Generate w = (Text (generate L w), w)"
| "exec ch L GenerateArray w =
     (Array (generate_array L w) (cells w (generate_array L w))
        (array_records (generate_array L w) w), w)"
| "exec ch L (Snapshot fmt) w =
     (case snapshot fmt L w of
        (Formatted s, w') \<Rightarrow> (Text s, w')
      | (Records a, w') \<Rightarrow> (Array a (cells w' a) (array_records a w'), w'))"
| "exec ch L (Mutate a xs) w = (NoValue, array_set a xs w)"
| "exec ch L (MutateRecord r v) w = (NoValue, object_set r v w)"

text \<open>
  The values shown by the logger's operations in a program, in order (a write
  of the caller shows nothing and is left out), and the world at the end.
\<close>

fun exec_all :: "chalk \<Rightarrow> 's Logger \<Rightarrow> op list \<Rightarrow> 's world \<Rightarrow> observation list \<times> 's world" where
  "exec_all ch L [] w = ([], w)"
| "exec_all ch L (p # ps) w =
     (let (r, w') = exec ch L p w;
          (rs, w'') = exec_all ch L ps w'
      in (if mutates p = None then r # rs else rs, w''))"

text \<open>
  A subscriber that writes down each notification: the record it is given, the
  buffer and the console as they are at that moment.
\<close>

definition recorder :: "(LogObject \<times> LogObject list \<times> string list) list listener" where
  "recorder r buf con st = st @ [(r, buf, con)]"

text \<open>
  A logger built without options on the empty world, and the world after the
  calls \<^verbatim>\<open>log("a")\<close> and \<^verbatim>\<open>warn("b", "X")\<close> on it.
\<close>

definition example_logger :: "unit Logger" where
  "example_logger = fst (Logger_new None (empty_world ()))"

definition example_world :: "unit world" where
  "example_world =
     run plain_chalk example_logger
       [(LogM, ''a'', None, example_date), (WarnM, ''b'', Some ''X'', example_date)]
       (snd (Logger_new None (empty_world ())))"

text \<open>A logger built with \<^verbatim>\<open>colored: true\<close>.\<close>

definition colored_logger :: "unit Logger" where
  "colored_logger =
     fst (Logger_new (Some \<lparr>maxStackSize = None, colored = Some True\<rparr>) (empty_world ()))"

text \<open>
  A program that holds the array at address 3 and writes to it between
  operations of the logger.
\<close>

definition example_program :: "op list" where
  "example_program =
     [Mutate 3 [], Call (ErrorM, ''c'', None, example_date), Generate, Mutate 3 [2, 1],
      Snapshot None, GenerateArray]"

text \<open>
  Two worlds are the same to a logger when its buffer, the records, the next
  address, the console and the subscribers' state are the same in both: they
  may differ in other arrays.
\<close>

definition same_logger :: "'s Logger \<Rightarrow> 's world \<Rightarrow> 's world \<Rightarrow> bool" where
  "same_logger L w1 w2 =
     (cells w1 (logarr L) = cells w2 (logarr L) \<and> objs w1 = objs w2 \<and> fresh w1 = fresh w2
      \<and> console w1 = console w2 \<and> subs w1 = subs w2)"

text \<open>
  What a notification written down by \<open>recorder\<close> shows when it was delivered
  after the \<^verbatim>\<open>push\<close> and after \<^verbatim>\<open>console.log\<close>: the record is the last one of
  the buffer and its line is the last one of the console.
\<close>

definition delivered_after_append :: "LogObject \<times> LogObject list \<times> string list \<Rightarrow> bool" where
  "delivered_after_append n =
     (case n of (r, buf, con) \<Rightarrow>
        buf \<noteq> [] \<and> last buf = r \<and> con \<noteq> [] \<and> last con = log r)"

text \<open>A logger for the subscriber \<open>recorder\<close>, before it subscribes, and two calls.\<close>

definition recorded_logger :: "(LogObject \<times> LogObject list \<times> string list) list Logger" where
  "recorded_logger = fst (Logger_new None (empty_world []))"

definition recorded_world :: "(LogObject \<times> LogObject list \<times> string list) list world" where
  "recorded_world = snd (Logger_new None (empty_world []))"

definition example_calls :: "call list" where
  "example_calls =
     [(LogM, ''a'', None, example_date), (WarnM, ''b'', Some ''X'', example_date)]"

section \<open>Frame lemmas\<close>

lemma foldl_notify:
  "cells (foldl (notify n p L) w ls) = cells w \<and>
   objs (foldl (notify n p L) w ls) = objs w \<and>
   fresh (foldl (notify n p L) w ls) = fresh w \<and>
   console (foldl (notify n p L) w ls) = console w"
  by (induction ls arbitrary: w) (simp_all add: notify_def)

lemma emit_cells [simp]: "cells (emit n p L w) = cells w"
  by (simp add: emit_def foldl_notify)

lemma emit_objs [simp]: "objs (emit n p L w) = objs w"
  by (simp add: emit_def foldl_notify)

lemma emit_fresh [simp]: "fresh (emit n p L w) = fresh w"
  by (simp add: emit_def foldl_notify)

lemma emit_console [simp]: "console (emit n p L w) = console w"
  by (simp add: emit_def foldl_notify)

lemma invoke_createLog:
  "invoke ch L (k, m, f, d) w = createLog ch L (entry_type k) m f d w"
  by (cases k) (simp_all add: log_method_def info_def warn_def error_def)

text \<open>
  A call allocates the record at the next unused address and inserts this
  address into the buffer.
\<close>

lemma createLog_cells:
  "cells (createLog ch L ty m f d w) =
     (cells w)(logarr L :=
        insert_step (options_maxStackSize L) (cells w (logarr L)) (fresh w))"
  by (simp add: createLog_def Let_def object_alloc_def array_shift_def array_push_def
      console_log_def insert_step_def)

lemma createLog_objs:
  "objs (createLog ch L ty m f d w) =
     (objs w)(fresh w := prepareLog ch d L \<lparr>msg = m, from = f, type = ty\<rparr>)"
  by (simp add: createLog_def Let_def object_alloc_def array_shift_def array_push_def
      console_log_def)

lemma createLog_fresh [simp]: "fresh (createLog ch L ty m f d w) = Suc (fresh w)"
  by (simp add: createLog_def Let_def object_alloc_def array_shift_def array_push_def
      console_log_def)

lemma createLog_console:
  "console (createLog ch L ty m f d w) =
     console w @ [log (prepareLog ch d L \<lparr>msg = m, from = f, type = ty\<rparr>)]"
  by (simp add: createLog_def Let_def object_alloc_def array_shift_def array_push_def
      console_log_def)

lemma invoke_buffer:
  "cells (invoke ch L c w) (logarr L) =
     insert_step (options_maxStackSize L) (cells w (logarr L)) (fresh w)"
  by (cases c) (simp add: invoke_createLog createLog_cells)

lemma invoke_other: "a \<noteq> logarr L \<Longrightarrow> cells (invoke ch L c w) a = cells w a"
  by (cases c) (simp add: invoke_createLog createLog_cells)

lemma invoke_objs: "objs (invoke ch L c w) = (objs w)(fresh w := record_of ch L c)"
  by (cases c) (simp add: invoke_createLog createLog_objs)

lemma invoke_fresh [simp]: "fresh (invoke ch L c w) = Suc (fresh w)"
  by (cases c) (simp add: invoke_createLog)

lemma invoke_console: "console (invoke ch L c w) = console w @ [log (record_of ch L c)]"
  by (cases c) (simp add: invoke_createLog createLog_console)

lemma run_fresh [simp]: "fresh (run ch L cs w) = fresh w + length cs"
  by (induction cs arbitrary: w) simp_all

lemma run_buffer:
  "cells (run ch L cs w) (logarr L) =
     foldl (insert_step (options_maxStackSize L)) (cells w (logarr L))
       [fresh w ..< fresh w + length cs]"
proof (induction cs arbitrary: w)
  case Nil
  then show ?case by simp
next
  case (Cons c cs)
  have "[fresh w ..< fresh w + length (c # cs)] = fresh w # [Suc (fresh w) ..< Suc (fresh w) + length cs]"
    by (simp add: upt_rec)
  then show ?case by (simp add: Cons.IH invoke_buffer)
qed

lemma run_console:
  "console (run ch L cs w) = console w @ map (\<lambda>c. log (record_of ch L c)) cs"
  by (induction cs arbitrary: w) (simp_all add: invoke_console)

lemma run_objs_old: "r < fresh w \<Longrightarrow> objs (run ch L cs w) r = objs w r"
  by (induction cs arbitrary: w) (simp_all add: invoke_objs)

lemma run_objs_new:
  "map (objs (run ch L cs w)) [fresh w ..< fresh w + length cs] = map (record_of ch L) cs"
proof (induction cs arbitrary: w)
  case Nil
  then show ?case by simp
next
  case (Cons c cs)
  have u: "[fresh w ..< fresh w + length (c # cs)]
             = fresh w # [Suc (fresh w) ..< Suc (fresh w) + length cs]"
    by (simp add: upt_rec)
  have "objs (run ch L cs (invoke ch L c w)) (fresh w) = record_of ch L c"
    by (simp add: run_objs_old invoke_objs)
  moreover have "map (objs (run ch L cs (invoke ch L c w)))
                   [Suc (fresh w) ..< Suc (fresh w) + length cs] = map (record_of ch L) cs"
    using Cons.IH [of "invoke ch L c w"] by simp
  ultimately show ?case by (simp only: u run.simps list.map)
qed

section \<open>The buffer and its threshold\<close>

text \<open>
  With a threshold \<open>cap \<ge> 0\<close> the buffer grows to \<open>cap + 1\<close> records before
  the first \<^verbatim>\<open>shift\<close>: the test of \<^verbatim>\<open>createLog\<close> is \<^verbatim>\<open>length > cap\<close> and it is
  made before the \<^verbatim>\<open>push\<close>. From then on every insertion removes exactly the
  oldest record, so the buffer holds the last \<open>cap + 1\<close> records in order.
\<close>

lemma insert_steps_drop:
  assumes "0 \<le> cap" and "length buf \<le> nat cap + 1"
  shows "foldl (insert_step cap) buf rs =
           drop (length buf + length rs - (nat cap + 1)) (buf @ rs)"
  using assms(2)
proof (induction rs arbitrary: buf)
  case Nil
  then show ?case by simp
next
  case (Cons r rs)
  show ?case
  proof (cases "int (length buf) > cap")
    case True
    with Cons.prems assms(1) have len: "length buf = nat cap + 1" by linarith
    then have ne: "buf \<noteq> []" by auto
    have step: "insert_step cap buf r = tl buf @ [r]"
      using True by (simp add: insert_step_def)
    have "length (tl buf @ [r]) \<le> nat cap + 1" using len by simp
    from Cons.IH [OF this]
    have "foldl (insert_step cap) (tl buf @ [r]) rs = drop (length rs) (tl buf @ r # rs)"
      using len by simp
    moreover have "drop (length buf + length (r # rs) - (nat cap + 1)) (buf @ r # rs)
        = drop (length rs) (tl buf @ r # rs)"
      using len ne by (cases buf) simp_all
    ultimately show ?thesis using step by simp
  next
    case False
    with assms(1) have len: "length buf \<le> nat cap" by linarith
    have step: "insert_step cap buf r = buf @ [r]"
      using False by (simp add: insert_step_def)
    have "length (buf @ [r]) \<le> nat cap + 1" using len by simp
    from Cons.IH [OF this] show ?thesis using step by simp
  qed
qed

lemma run_buffer_keeps_threshold_plus_one:
  assumes "0 \<le> options_maxStackSize L" and "cells w (logarr L) = []"
  shows "array_records (logarr L) (run ch L cs w) =
           drop (length cs - (nat (options_maxStackSize L) + 1)) (map (record_of ch L) cs)"
proof -
  let ?k = "length cs - (nat (options_maxStackSize L) + 1)"
  have "cells (run ch L cs w) (logarr L) = drop ?k [fresh w ..< fresh w + length cs]"
    using insert_steps_drop [OF assms(1), of "[]" "[fresh w ..< fresh w + length cs]"]
    by (simp add: run_buffer assms(2))
  then have "array_records (logarr L) (run ch L cs w)
      = drop ?k (map (objs (run ch L cs w)) [fresh w ..< fresh w + length cs])"
    by (simp add: array_records_def drop_map)
  then show ?thesis by (simp only: run_objs_new)
qed

text \<open>
  A negative threshold is below every length: every insertion shifts first, and
  the buffer holds the latest record only.
\<close>

lemma insert_steps_negative:
  assumes "cap < 0" and "length buf \<le> 1" and "rs \<noteq> []"
  shows "foldl (insert_step cap) buf rs = [last rs]"
  using assms(2,3)
proof (induction rs arbitrary: buf)
  case Nil
  then show ?case by simp
next
  case (Cons r rs)
  have step: "insert_step cap buf r = [r]"
    using assms(1) Cons.prems(1) by (cases buf) (simp_all add: insert_step_def)
  show ?case
  proof (cases rs)
    case Nil
    then show ?thesis using step by simp
  next
    case (Cons r' rs')
    then have "rs \<noteq> []" by simp
    from Cons.IH [of "[r]"] this show ?thesis using step by simp
  qed
qed

lemma run_buffer_negative_threshold:
  assumes "options_maxStackSize L < 0" and "cells w (logarr L) = []" and "cs \<noteq> []"
  shows "array_records (logarr L) (run ch L cs w) = [record_of ch L (last cs)]"
proof -
  let ?rs = "[fresh w ..< fresh w + length cs]"
  from assms(3) have ne: "?rs \<noteq> []" by simp
  have c: "cells (run ch L cs w) (logarr L) = [last ?rs]"
    using insert_steps_negative [OF assms(1), of "[]" ?rs] ne
    by (simp add: run_buffer assms(2))
  have "objs (run ch L cs w) (last ?rs) = last (map (objs (run ch L cs w)) ?rs)"
    using ne by (rule last_map [symmetric])
  also have "\<dots> = last (map (record_of ch L) cs)" by (simp only: run_objs_new)
  also have "\<dots> = record_of ch L (last cs)" using assms(3) by (rule last_map)
  finally show ?thesis using c by (simp add: array_records_def)
qed

section \<open>Evaluation on new loggers\<close>

lemma Logger_new_eq:
  "Logger_new opts w =
     (\<lparr>logarr = fresh w, options = opts, listeners = []\<rparr>,
      w\<lparr>cells := (cells w)(fresh w := []), fresh := Suc (fresh w)\<rparr>)"
  by (simp add: Logger_new_def array_alloc_def)

lemma Logger_new_buffer: "cells (snd (Logger_new opts w)) (logarr (fst (Logger_new opts w))) = []"
  by (simp add: Logger_new_eq)

lemma Logger_new_options: "options (fst (Logger_new opts w)) = opts"
  by (simp add: Logger_new_eq)

lemma prepareLog_msg [simp]: "msg (prepareLog ch d L lg) = msg lg"
  by (simp add: prepareLog_def Let_def)

lemma toUpperCase_Info [simp]: "toUpperCase ''Info'' = ''INFO''"
  by code_simp

lemma toUpperCase_Warn [simp]: "toUpperCase ''Warn'' = ''WARN''"
  by code_simp

lemma toUpperCase_Error [simp]: "toUpperCase ''Error'' = ''ERROR''"
  by code_simp

lemma toUpperCase_Default [simp]: "toUpperCase ''Default'' = ''DEFAULT''"
  by code_simp

lemma showNat_64 [simp]: "showNat 64 = ''64''"
  by code_simp

lemma cells_length: "length (cells w a) = length (array_records a w)"
  by (simp add: array_records_def)

lemma run_unfold3:
  "error ch L m3 f3 d3 (warn ch L m2 f2 d2 (log_method ch L m1 f1 d1 w))
     = run ch L [(LogM, m1, f1, d1), (WarnM, m2, f2, d2), (ErrorM, m3, f3, d3)] w"
  by simp

lemma snapshot_records:
  "fmt \<noteq> Some True \<Longrightarrow>
   snapshot fmt L w = (Records (fresh w), snd (array_alloc (cells w (logarr L)) w))"
  by (simp add: snapshot_def array_alloc_def)

lemma snapshot_copy_records:
  "array_records (fresh w) (snd (array_alloc (cells w (logarr L)) w)) = array_records (logarr L) w"
  by (simp add: array_records_def array_alloc_def)

text \<open>
  C1. The claim: with \<^verbatim>\<open>maxStackSize = C\<close>, after \<open>N\<close> calls the buffer holds
  exactly \<open>min N C\<close> records. The code at \<open>C = 1\<close>, \<open>N = 2\<close>: the buffer of a new
  logger holds both records after two calls, since the second call finds the
  length 1, which is not above 1, and does not shift.
\<close>

theorem createLog_capacity_overrun:
  "(let (L, w) = Logger_new (Some \<lparr>maxStackSize = Some 1, colored = None\<rparr>) (empty_world ());
        w' = run plain_chalk L
               [(LogM, ''a'', None, example_date), (LogM, ''b'', None, example_date)] w
    in map msg (array_records (logarr L) w') = [''a'', ''b'']
       \<and> length (cells w' (logarr L)) = 2
       \<and> length (cells w' (logarr L)) \<noteq> min 2 1)"
proof -
  let ?opts = "Some \<lparr>maxStackSize = Some 1, colored = None\<rparr>"
  let ?cs = "[(LogM, ''a'', None, example_date), (LogM, ''b'', None, example_date)]"
  obtain L :: "unit Logger" and w where new: "Logger_new ?opts (empty_world ()) = (L, w)"
    by (cases "Logger_new ?opts (empty_world ()) :: unit Logger \<times> unit world")
  from new have emp: "cells w (logarr L) = []"
    using Logger_new_buffer [of ?opts "empty_world ()"] by simp
  from new have cap: "options_maxStackSize L = 1"
    using Logger_new_options [of ?opts "empty_world ()"] by (simp add: options_maxStackSize_def)
  have recs: "array_records (logarr L) (run plain_chalk L ?cs w) = map (record_of plain_chalk L) ?cs"
    using run_buffer_keeps_threshold_plus_one [of L w plain_chalk ?cs] cap emp by simp
  then have msgs: "map msg (array_records (logarr L) (run plain_chalk L ?cs w)) = [''a'', ''b'']"
    by simp
  from recs have len: "length (cells (run plain_chalk L ?cs w) (logarr L)) = 2"
    by (simp add: cells_length)
  show ?thesis
    by (simp add: new msgs len del: run.simps)
qed

text \<open>
  C2. The scenario of the spec: capacity 2, \<^verbatim>\<open>colored = false\<close>, the calls
  \<^verbatim>\<open>log("a")\<close>, \<^verbatim>\<open>warn("b","X")\<close>, \<^verbatim>\<open>error("c")\<close>. The array returned by
  \<^verbatim>\<open>snapshot(false)\<close> holds three records, the first of them the record of "a";
  the lines of "b" and "c" are as the spec gives them.
\<close>

theorem snapshot_scenario_keeps_first_record:
  "(let (L, w) = Logger_new (Some \<lparr>maxStackSize = Some 2, colored = Some False\<rparr>)
                   (empty_world ());
        w1 = log_method ansi_chalk L ''a'' None example_date w;
        w2 = warn ansi_chalk L ''b'' (Some ''X'') example_date w1;
        w3 = error ansi_chalk L ''c'' None example_date w2
    in case snapshot (Some False) L w3 of
         (Formatted s, w') \<Rightarrow> False
       | (Records a, w') \<Rightarrow>
           length (cells w' a) = 3
           \<and> map msg (array_records a w') = [''a'', ''b'', ''c'']
           \<and> map log (array_records a w') =
               [''[08.03.2024, 21:07:21.64]: a'',
                ''WARN: [08.03.2024, 21:07:21.64] (X): b'',
                ''ERROR: [08.03.2024, 21:07:21.64]: c''])"
proof -
  let ?opts = "Some \<lparr>maxStackSize = Some 2, colored = Some False\<rparr>"
  let ?cs = "[(LogM, ''a'', None, example_date), (WarnM, ''b'', Some ''X'', example_date),
              (ErrorM, ''c'', None, example_date)]"
  obtain L :: "unit Logger" and w where new: "Logger_new ?opts (empty_world ()) = (L, w)"
    by (cases "Logger_new ?opts (empty_world ()) :: unit Logger \<times> unit world")
  from new have emp: "cells w (logarr L) = []"
    using Logger_new_buffer [of ?opts "empty_world ()"] by simp
  from new have opts: "options L = ?opts"
    using Logger_new_options [of ?opts "empty_world ()"] by simp
  then have cap: "options_maxStackSize L = 2"
    by (simp add: options_maxStackSize_def)
  let ?w3 = "run ansi_chalk L ?cs w"
  let ?w' = "snd (array_alloc (cells ?w3 (logarr L)) ?w3)"
  have recs: "array_records (logarr L) ?w3 = map (record_of ansi_chalk L) ?cs"
    using run_buffer_keeps_threshold_plus_one [of L w ansi_chalk ?cs] cap emp by simp
  have snap: "snapshot (Some False) L ?w3 = (Records (fresh ?w3), ?w')"
    by (rule snapshot_records) simp
  have copy: "array_records (fresh ?w3) ?w' = map (record_of ansi_chalk L) ?cs"
    by (simp only: snapshot_copy_records recs)
  have lines: "map log (map (record_of ansi_chalk L) ?cs) =
               [''[08.03.2024, 21:07:21.64]: a'',
                ''WARN: [08.03.2024, 21:07:21.64] (X): b'',
                ''ERROR: [08.03.2024, 21:07:21.64]: c'']"
    using opts
    by (simp add: prepareLog_def Let_def options_colored_def example_date_def)
  have len: "length (cells ?w' (fresh ?w3)) = 3"
    by (simp only: cells_length copy) simp
  have msgs: "map msg (array_records (fresh ?w3) ?w') = [''a'', ''b'', ''c'']"
    by (simp only: copy) simp
  show ?thesis
    by (simp only: new Let_def prod.case run_unfold3 snap snapshot_result.case len msgs copy lines)
      simp
qed

section \<open>The configured threshold\<close>

text \<open>
  \<^verbatim>\<open>createLog\<close> reads the logger through its buffer, its listeners and the two
  options only.
\<close>

lemma notify_cong: "logarr L = logarr L' \<Longrightarrow> notify n p L = notify n p L'"
  by (intro ext) (simp add: notify_def)

lemma prepareLog_cong:
  assumes "options_colored L = options_colored L'"
  shows "prepareLog ch d L lg = prepareLog ch d L' lg"
  unfolding prepareLog_def assms by (rule refl)

lemma createLog_cong:
  assumes "logarr L = logarr L'" and "listeners L = listeners L'"
    and "options_colored L = options_colored L'"
    and "options_maxStackSize L = options_maxStackSize L'"
  shows "createLog ch L ty m f d w = createLog ch L' ty m f d w"
  unfolding createLog_def emit_def prepareLog_cong [OF assms(3)] notify_cong [OF assms(1)]
    assms(1) assms(2) assms(4)
  by (rule refl)

lemma invoke_cong:
  assumes "logarr L = logarr L'" and "listeners L = listeners L'"
    and "options_colored L = options_colored L'"
    and "options_maxStackSize L = options_maxStackSize L'"
  shows "invoke ch L c w = invoke ch L' c w"
  by (cases c) (simp add: invoke_createLog createLog_cong [OF assms])

lemma run_cong:
  assumes "logarr L = logarr L'" and "listeners L = listeners L'"
    and "options_colored L = options_colored L'"
    and "options_maxStackSize L = options_maxStackSize L'"
  shows "run ch L cs w = run ch L' cs w"
  by (induction cs arbitrary: w) (simp_all add: invoke_cong [OF assms])

text \<open>
  C3, as the spec states it, at \<^verbatim>\<open>maxStackSize = -1\<close>: the number \<open>-1\<close> is truthy,
  so \<^verbatim>\<open>||\<close> keeps it, every call shifts, and after two calls the buffer holds
  the second record only, where the logger with capacity 500 holds both.
\<close>

theorem maxStackSize_negative_not_default:
  "(let (L, w) = Logger_new (Some \<lparr>maxStackSize = Some (- 1), colored = None\<rparr>)
                   (empty_world ());
        (L', w') = Logger_new (Some \<lparr>maxStackSize = Some 500, colored = None\<rparr>)
                     (empty_world ());
        cs = [(LogM, ''a'', None, example_date), (LogM, ''b'', None, example_date)]
    in map msg (array_records (logarr L) (run plain_chalk L cs w)) = [''b'']
       \<and> map msg (array_records (logarr L') (run plain_chalk L' cs w')) = [''a'', ''b'']
       \<and> array_records (logarr L) (run plain_chalk L cs w)
           \<noteq> array_records (logarr L') (run plain_chalk L' cs w'))"
proof -
  let ?neg = "Some \<lparr>maxStackSize = Some (- 1), colored = None\<rparr>"
  let ?def = "Some \<lparr>maxStackSize = Some 500, colored = None\<rparr>"
  let ?cs = "[(LogM, ''a'', None, example_date), (LogM, ''b'', None, example_date)]"
  obtain L :: "unit Logger" and w where new: "Logger_new ?neg (empty_world ()) = (L, w)"
    by (cases "Logger_new ?neg (empty_world ()) :: unit Logger \<times> unit world")
  obtain L' :: "unit Logger" and w' where new': "Logger_new ?def (empty_world ()) = (L', w')"
    by (cases "Logger_new ?def (empty_world ()) :: unit Logger \<times> unit world")
  from new have emp: "cells w (logarr L) = []"
    using Logger_new_buffer [of ?neg "empty_world ()"] by simp
  from new have cap: "options_maxStackSize L = - 1"
    using Logger_new_options [of ?neg "empty_world ()"] by (simp add: options_maxStackSize_def)
  from new' have emp': "cells w' (logarr L') = []"
    using Logger_new_buffer [of ?def "empty_world ()"] by simp
  from new' have cap': "options_maxStackSize L' = 500"
    using Logger_new_options [of ?def "empty_world ()"] by (simp add: options_maxStackSize_def)
  have recs: "array_records (logarr L) (run plain_chalk L ?cs w)
                = [record_of plain_chalk L (LogM, ''b'', None, example_date)]"
    using run_buffer_negative_threshold [of L w ?cs plain_chalk] cap emp by simp
  have recs': "array_records (logarr L') (run plain_chalk L' ?cs w')
                = map (record_of plain_chalk L') ?cs"
    using run_buffer_keeps_threshold_plus_one [of L' w' plain_chalk ?cs] cap' emp' by simp
  from recs have m: "map msg (array_records (logarr L) (run plain_chalk L ?cs w)) = [''b'']"
    by simp
  from recs' have m': "map msg (array_records (logarr L') (run plain_chalk L' ?cs w'))
                        = [''a'', ''b'']"
    by simp
  from m m' have ne: "array_records (logarr L) (run plain_chalk L ?cs w)
           \<noteq> array_records (logarr L') (run plain_chalk L' ?cs w')"
    by (metis list.inject list.map(2) list.distinct(1) list.map(1))
  show ?thesis
    using ne by (simp add: new new' m m' del: run.simps)
qed

text \<open>
  C3, amended: a logger whose \<^verbatim>\<open>maxStackSize\<close> is configured as zero behaves, on
  every sequence of record-creation calls and from every state, as the same
  logger with \<^verbatim>\<open>maxStackSize = 500\<close> and as the same logger with
  \<^verbatim>\<open>maxStackSize\<close> left out: the whole world afterwards (buffer, console,
  subscribers) is the same.
\<close>

theorem maxStackSize_zero_is_default:
  "run ch (L\<lparr>options := Some \<lparr>maxStackSize = Some 0, colored = c\<rparr>\<rparr>) cs w
     = run ch (L\<lparr>options := Some \<lparr>maxStackSize = Some 500, colored = c\<rparr>\<rparr>) cs w
   \<and> run ch (L\<lparr>options := Some \<lparr>maxStackSize = Some 0, colored = c\<rparr>\<rparr>) cs w
     = run ch (L\<lparr>options := Some \<lparr>maxStackSize = None, colored = c\<rparr>\<rparr>) cs w"
  by (simp add: run_cong options_colored_def options_maxStackSize_def)

section \<open>The formatted line\<close>

text \<open>
  C4, as the spec states it, at the call \<^verbatim>\<open>info("m", "")\<close> on a logger without
  options: the source-present rule would give the line with \<^verbatim>\<open>" (): "\<close> after
  the bracket. The empty string is falsy, so \<^verbatim>\<open>if (log.from)\<close> takes the other
  branch.
\<close>

theorem empty_source_not_rendered:
  "log (prepareLog plain_chalk example_date
         \<lparr>logarr = 0, options = None, listeners = ([] :: (string \<times> unit listener) list)\<rparr>
         \<lparr>msg = ''m'', from = Some [], type = Info\<rparr>)
     \<noteq> ''INFO: [08.03.2024, 21:07:21.64] (): m''"
  by code_simp

text \<open>
  C4, amended: record creation is total and takes degenerate inputs. For every
  severity, a call with an empty-string source builds a record whose line
  renders the source section by the source-absent rule, \<^verbatim>\<open>": "\<close> right after
  the timestamp bracket, the same line as for a call without source; the record
  keeps the message and the empty source as given, and it is the record at the
  end of the buffer and its line the last one on the console. The message is
  appended unmodified: the line for a message \<open>m\<close> is the line for the empty
  message followed by \<open>m\<close>.
\<close>

theorem degenerate_inputs_accepted:
  "(let r = prepareLog ch d L \<lparr>msg = m, from = Some [], type = ty\<rparr>;
        w' = createLog ch L ty m (Some []) d w
    in log r =
          (if ty = Default then []
           else (if options_colored L
                 then Colorize_coloredType ch ty (toUpperCase (LogType_name ty))
                 else toUpperCase (LogType_name ty)) @ '': '')
          @ ''[''
          @ (if options_colored L then Colorize_timestamp ch (timestamp r) else timestamp r)
          @ '']'' @ '': '' @ m
        \<and> log r = log (prepareLog ch d L \<lparr>msg = m, from = None, type = ty\<rparr>)
        \<and> msg r = m \<and> from r = Some [] \<and> type r = ty
        \<and> array_records (logarr L) w' \<noteq> []
        \<and> last (array_records (logarr L) w') = r
        \<and> last (console w') = log r)
   \<and> log (prepareLog ch d L \<lparr>msg = [], from = f, type = ty\<rparr>) @ m
        = log (prepareLog ch d L \<lparr>msg = m, from = f, type = ty\<rparr>)"
proof -
  let ?r = "prepareLog ch d L \<lparr>msg = m, from = Some [], type = ty\<rparr>"
  let ?w' = "createLog ch L ty m (Some []) d w"
  have l1: "log ?r =
          (if ty = Default then []
           else (if options_colored L
                 then Colorize_coloredType ch ty (toUpperCase (LogType_name ty))
                 else toUpperCase (LogType_name ty)) @ '': '')
          @ ''[''
          @ (if options_colored L then Colorize_timestamp ch (timestamp ?r) else timestamp ?r)
          @ '']'' @ '': '' @ m"
    by (simp add: prepareLog_def Let_def)
  have l2: "log ?r = log (prepareLog ch d L \<lparr>msg = m, from = None, type = ty\<rparr>)"
    by (simp add: prepareLog_def Let_def)
  have l3: "msg ?r = m" and l4: "from ?r = Some []" and l5: "type ?r = ty"
    by (simp_all add: prepareLog_def Let_def)
  have b1: "array_records (logarr L) ?w' \<noteq> []"
    by (simp add: array_records_def createLog_cells insert_step_def)
  have b2: "last (array_records (logarr L) ?w') = ?r"
    by (simp add: array_records_def createLog_cells createLog_objs insert_step_def)
  have c: "last (console ?w') = log ?r"
    by (simp add: createLog_console)
  have a: "log (prepareLog ch d L \<lparr>msg = [], from = f, type = ty\<rparr>) @ m
        = log (prepareLog ch d L \<lparr>msg = m, from = f, type = ty\<rparr>)"
    by (simp add: prepareLog_def Let_def)
  show ?thesis
    unfolding Let_def by (intro conjI l1 l2 l3 l4 l5 b1 b2 c a)
qed

text \<open>
  C8. For every message, source, clock reading and colour backend: the line of
  an Info, Warn or Error record starts with \<open>INFO\<close>, \<open>WARN\<close> or \<open>ERROR\<close>,
  decorated by the severity's colour when \<^verbatim>\<open>colored\<close> is set, followed by
  \<^verbatim>\<open>": "\<close>; the line of a Default record, with \<^verbatim>\<open>colored\<close> not set, starts with
  \<^verbatim>\<open>"["\<close>.
\<close>

theorem severity_prefix:
  "(ty = Info \<longrightarrow>
      prefix ((if options_colored L then Colorize_coloredType ch Info ''INFO'' else ''INFO'')
              @ '': '')
        (log (prepareLog ch d L \<lparr>msg = m, from = f, type = ty\<rparr>)))
   \<and> (ty = Warn \<longrightarrow>
      prefix ((if options_colored L then Colorize_coloredType ch Warn ''WARN'' else ''WARN'')
              @ '': '')
        (log (prepareLog ch d L \<lparr>msg = m, from = f, type = ty\<rparr>)))
   \<and> (ty = Error \<longrightarrow>
      prefix ((if options_colored L then Colorize_coloredType ch Error ''ERROR'' else ''ERROR'')
              @ '': '')
        (log (prepareLog ch d L \<lparr>msg = m, from = f, type = ty\<rparr>)))
   \<and> (ty = Default \<and> \<not> options_colored L \<longrightarrow>
      prefix ''['' (log (prepareLog ch d L \<lparr>msg = m, from = f, type = ty\<rparr>)))"
  by (simp add: prepareLog_def Let_def)

lemma example_logger_eq:
  "example_logger = \<lparr>logarr = 0, options = None, listeners = []\<rparr>"
  by (simp add: example_logger_def Logger_new_eq empty_world_def)

lemma example_logarr: "logarr example_logger = 0"
  by (simp add: example_logger_eq)

lemma example_not_colored: "\<not> options_colored example_logger"
  by (simp add: example_logger_eq options_colored_def)

lemma colored_logger_colored: "options_colored colored_logger"
  by (simp add: colored_logger_def Logger_new_eq options_colored_def)

theorem severity_prefix_witness:
  "prefix (ansi 93 ''WARN'' @ '': '')
     (log (prepareLog ansi_chalk example_date colored_logger
            \<lparr>msg = ''b'', from = Some ''X'', type = Warn\<rparr>))
   \<and> prefix ''INFO: ''
     (log (prepareLog ansi_chalk example_date example_logger
            \<lparr>msg = ''i'', from = None, type = Info\<rparr>))
   \<and> prefix ''ERROR: ''
     (log (prepareLog ansi_chalk example_date example_logger
            \<lparr>msg = ''c'', from = None, type = Error\<rparr>))
   \<and> prefix ''[''
     (log (prepareLog ansi_chalk example_date example_logger
            \<lparr>msg = ''a'', from = None, type = Default\<rparr>))"
  using severity_prefix [where ty = Warn and L = colored_logger and ch = ansi_chalk
      and d = example_date and m = "''b''" and f = "Some ''X''"]
    severity_prefix [where ty = Info and L = example_logger and ch = ansi_chalk
      and d = example_date and m = "''i''" and f = None]
    severity_prefix [where ty = Error and L = example_logger and ch = ansi_chalk
      and d = example_date and m = "''c''" and f = None]
    severity_prefix [where ty = Default and L = example_logger and ch = ansi_chalk
      and d = example_date and m = "''a''" and f = None]
    colored_logger_colored example_not_colored
  by (simp add: ansi_chalk_def)

section \<open>Snapshots and the deprecated operations\<close>

lemma foldl_snoc_map: "foldl (\<lambda>logs l. logs @ [f l]) acc xs = acc @ map f xs"
  by (induction xs arbitrary: acc) simp_all

lemma generate_join: "generate L w = join [CHR 0x0A] (map log (array_records (logarr L) w))"
  by (simp add: generate_def foldl_snoc_map array_records_def comp_def)

lemma snapshot_fst: "fmt \<noteq> Some True \<Longrightarrow> fst (snapshot fmt L w) = Records (fresh w)"
  by (simp add: snapshot_records)

lemma snapshot_snd:
  "fmt \<noteq> Some True \<Longrightarrow>
   snd (snapshot fmt L w) =
     w\<lparr>cells := (cells w)(fresh w := cells w (logarr L)), fresh := Suc (fresh w)\<rparr>"
  by (simp add: snapshot_records array_alloc_def)

text \<open>The example: the buffer is the array 0, the two records are at 1 and 2.\<close>

lemma example_cap: "options_maxStackSize example_logger = 500"
  by (simp add: example_logger_eq options_maxStackSize_def)

lemma example_start:
  "cells (snd (Logger_new None (empty_world ()))) 0 = []
   \<and> fresh (snd (Logger_new None (empty_world ()))) = 1"
  by (simp add: Logger_new_eq empty_world_def)

lemma example_fresh: "fresh example_world = 3"
  by (simp add: example_world_def example_start del: run.simps)

lemma example_cells: "cells example_world 0 = [1, 2]"
proof -
  have "cells example_world (logarr example_logger)
          = foldl (insert_step 500) [] [Suc 0, Suc (Suc 0)]"
    unfolding example_world_def run_buffer
    by (simp add: example_start example_logarr example_cap upt_rec)
  then show ?thesis by (simp add: example_logarr insert_step_def)
qed

lemma example_records:
  "array_records 0 example_world =
     [prepareLog plain_chalk example_date example_logger
        \<lparr>msg = ''a'', from = None, type = Default\<rparr>,
      prepareLog plain_chalk example_date example_logger
        \<lparr>msg = ''b'', from = Some ''X'', type = Warn\<rparr>]"
proof -
  have "0 \<le> options_maxStackSize example_logger"
    by (simp add: example_cap)
  from run_buffer_keeps_threshold_plus_one [OF this, of "snd (Logger_new None (empty_world ()))"
      plain_chalk "[(LogM, ''a'', None, example_date), (WarnM, ''b'', Some ''X'', example_date)]"]
  show ?thesis
    unfolding example_world_def [symmetric]
    by (simp add: example_start example_logarr example_cap del: run.simps)
qed

lemma example_buffer: "map msg (array_records 0 example_world) = [''a'', ''b'']"
  by (simp add: example_records)

lemma example_lines:
  "map log (array_records 0 example_world) =
     [''[08.03.2024, 21:07:21.64]: a'', ''WARN: [08.03.2024, 21:07:21.64] (X): b'']"
  by (simp add: example_records prepareLog_def Let_def example_not_colored example_date_def)


lemma example_snapshot:
  "snapshot (Some False) example_logger example_world
     = (Records 3, snd (snapshot (Some False) example_logger example_world))"
proof -
  have "fst (snapshot (Some False) example_logger example_world) = Records 3"
    by (simp add: snapshot_fst example_fresh)
  then show ?thesis by (metis prod.collapse)
qed



text \<open>
  C7. For every logger state, the string of \<^verbatim>\<open>snapshot(true)\<close> is the join, with
  a newline between them, of the \<^verbatim>\<open>log\<close> fields of the records in the array of
  \<^verbatim>\<open>snapshot(false)\<close>, in the same order.
\<close>

theorem snapshot_formatted_is_join:
  assumes "snapshot (Some False) L w = (Records a, w')"
  shows "snapshot (Some True) L w
           = (Formatted (join [CHR 0x0A] (map log (array_records a w'))), w)"
  using assms by (auto simp add: snapshot_def array_alloc_def array_records_def comp_def)

theorem snapshot_formatted_is_join_witness:
  "snapshot (Some False) example_logger example_world
     = (Records 3, snd (snapshot (Some False) example_logger example_world))
   \<and> snapshot (Some True) example_logger example_world
     = (Formatted (join [CHR 0x0A] (map log
          (array_records 3 (snd (snapshot (Some False) example_logger example_world))))),
        example_world)
   \<and> fst (snapshot (Some True) example_logger example_world)
     = Formatted (''[08.03.2024, 21:07:21.64]: a'' @ [CHR 0x0A]
                  @ ''WARN: [08.03.2024, 21:07:21.64] (X): b'')"
proof -
  have v: "fst (snapshot (Some True) example_logger example_world)
     = Formatted (''[08.03.2024, 21:07:21.64]: a'' @ [CHR 0x0A]
                  @ ''WARN: [08.03.2024, 21:07:21.64] (X): b'')"
    using example_lines
    by (simp add: snapshot_def example_logarr array_records_def comp_def)
  from snapshot_formatted_is_join [OF example_snapshot] example_snapshot v
  show ?thesis by (intro conjI)
qed

text \<open>
  C10. \<^verbatim>\<open>snapshot\<close> with the flag left out returns what \<^verbatim>\<open>snapshot(false)\<close>
  returns: a new array (at the next unused address, so not the buffer of a
  logger that exists) with the records of the buffer, which stays as it is. The
  string is returned when the flag is \<^verbatim>\<open>true\<close> and only then.
\<close>

theorem snapshot_format_omitted:
  "snapshot None L w = snapshot (Some False) L w
   \<and> (\<exists>a w'. snapshot None L w = (Records a, w')
         \<and> a = fresh w \<and> cells w' a = cells w (logarr L)
         \<and> array_records a w' = array_records (logarr L) w
         \<and> (logarr L < fresh w \<longrightarrow>
              a \<noteq> logarr L \<and> cells w' (logarr L) = cells w (logarr L)
              \<and> array_records (logarr L) w' = array_records (logarr L) w))
   \<and> ((\<exists>s. fst (snapshot fmt L w) = Formatted s) = (fmt = Some True))"
  by (auto simp add: snapshot_def array_alloc_def array_records_def)

theorem snapshot_format_omitted_witness:
  "logarr example_logger < fresh example_world
   \<and> snapshot None example_logger example_world
       = snapshot (Some False) example_logger example_world
   \<and> (\<exists>w'. snapshot None example_logger example_world = (Records 3, w')
         \<and> map msg (array_records 3 w') = [''a'', ''b''] \<and> cells w' 3 = cells example_world 0
         \<and> cells w' 0 = cells example_world 0)"
proof -
  have lt: "logarr example_logger < fresh example_world"
    by (simp add: example_fresh example_logarr)
  from snapshot_format_omitted [of example_logger example_world None]
  obtain a w' where eq: "snapshot None example_logger example_world
                           = snapshot (Some False) example_logger example_world"
    and s: "snapshot None example_logger example_world = (Records a, w')"
    and a: "a = fresh example_world"
    and c: "cells w' a = cells example_world (logarr example_logger)"
    and r: "array_records a w' = array_records (logarr example_logger) example_world"
    and k: "logarr example_logger < fresh example_world \<longrightarrow>
              a \<noteq> logarr example_logger
              \<and> cells w' (logarr example_logger) = cells example_world (logarr example_logger)
              \<and> array_records (logarr example_logger) w'
                  = array_records (logarr example_logger) example_world"
    by blast
  from k lt have k': "cells w' 0 = cells example_world 0"
    by (simp add: example_logarr)
  from c a have c': "cells w' 3 = cells example_world 0"
    by (simp add: example_fresh example_logarr)
  from s a have s': "snapshot None example_logger example_world = (Records 3, w')"
    by (simp add: example_fresh)
  from r a have m: "map msg (array_records 3 w') = [''a'', ''b'']"
    by (simp add: example_fresh example_logarr example_buffer)
  from s' m c' k'
  have "\<exists>w'. snapshot None example_logger example_world = (Records 3, w')
         \<and> map msg (array_records 3 w') = [''a'', ''b''] \<and> cells w' 3 = cells example_world 0
         \<and> cells w' 0 = cells example_world 0"
    by (intro exI [of _ w']) simp
  with lt eq show ?thesis by (intro conjI)
qed

section \<open>Writes of the caller\<close>

lemma same_logger_refl [simp]: "same_logger L w w"
  by (simp add: same_logger_def)

lemma notify_same:
  "same_logger L w1 w2 \<Longrightarrow> same_logger L (notify n p L w1 l) (notify n p L w2 l)"
  by (simp add: same_logger_def notify_def array_records_def)

lemma foldl_notify_same:
  "same_logger L w1 w2 \<Longrightarrow>
   same_logger L (foldl (notify n p L) w1 ls) (foldl (notify n p L) w2 ls)"
  by (induction ls arbitrary: w1 w2) (simp_all add: notify_same)

lemma emit_same:
  "same_logger L w1 w2 \<Longrightarrow> same_logger L (emit n p L w1) (emit n p L w2)"
  by (simp add: emit_def foldl_notify_same)

lemma createLog_same:
  assumes "same_logger L w1 w2"
  shows "same_logger L (createLog ch L ty m f d w1) (createLog ch L ty m f d w2)"
proof -
  let ?r = "prepareLog ch d L \<lparr>msg = m, from = f, type = ty\<rparr>"
  let ?pre = "\<lambda>w. console_log (log ?r)
      (array_push (logarr L) (fresh w)
         (if int (length (cells w (logarr L))) > options_maxStackSize L
          then array_shift (logarr L) (snd (object_alloc ?r w))
          else snd (object_alloc ?r w)))"
  have eq: "createLog ch L ty m f d w = emit ''log'' (fresh w) L (?pre w)" for w :: "'a world"
    by (simp add: createLog_def Let_def object_alloc_def array_push_def array_shift_def
        console_log_def)
  have f: "fresh w1 = fresh w2" using assms by (simp add: same_logger_def)
  have "same_logger L (?pre w1) (?pre w2)"
    using assms
    by (simp add: same_logger_def console_log_def array_push_def array_shift_def
        object_alloc_def)
  then have "same_logger L (emit ''log'' (fresh w1) L (?pre w1))
               (emit ''log'' (fresh w1) L (?pre w2))"
    by (rule emit_same)
  then show ?thesis by (simp only: eq f)
qed

lemma invoke_same:
  "same_logger L w1 w2 \<Longrightarrow> same_logger L (invoke ch L c w1) (invoke ch L c w2)"
  by (cases c) (simp add: invoke_createLog createLog_same)

text \<open>
  An operation of the logger shows the same value in two worlds that are the
  same to the logger, and leaves them so.
\<close>

lemma exec_same:
  assumes "same_logger L w1 w2" and "mutates p = None"
  shows "fst (exec ch L p w1) = fst (exec ch L p w2)
         \<and> same_logger L (snd (exec ch L p w1)) (snd (exec ch L p w2))"
proof (cases p)
  case (Call c)
  then show ?thesis using assms(1) by (simp add: invoke_same)
next
  case Generate
  then show ?thesis using assms(1) by (simp add: generate_def same_logger_def)
next
  case GenerateArray
  then show ?thesis using assms(1)
    by (simp add: generate_array_def same_logger_def array_records_def)
next
  case (Snapshot fmt)
  then show ?thesis using assms(1)
    by (simp add: snapshot_def array_alloc_def same_logger_def array_records_def)
next
  case (Mutate a xs)
  then show ?thesis using assms(2) by simp
next
  case (MutateRecord r v)
  then show ?thesis using assms(2) by simp
qed

lemma array_set_same:
  "a \<noteq> logarr L \<Longrightarrow> same_logger L w1 w2 \<Longrightarrow> same_logger L (array_set a xs w1) w2"
  by (simp add: same_logger_def array_set_def)

text \<open>
  A program whose writes all go to one array, which is not the buffer, is shown
  the same values as the program without the writes.
\<close>

lemma exec_all_same:
  assumes "a \<noteq> logarr L"
  shows "list_all (\<lambda>p. mutates p = None \<or> mutates p = Some (ArrayAt a)) ops \<Longrightarrow>
         same_logger L w1 w2 \<Longrightarrow>
         fst (exec_all ch L ops w1) = fst (exec_all ch L (filter (\<lambda>p. mutates p = None) ops) w2)
         \<and> same_logger L (snd (exec_all ch L ops w1))
              (snd (exec_all ch L (filter (\<lambda>p. mutates p = None) ops) w2))"
proof (induction ops arbitrary: w1 w2)
  case Nil
  then show ?case by simp
next
  case (Cons p ps)
  from Cons.prems(1)
  have ps: "list_all (\<lambda>p. mutates p = None \<or> mutates p = Some (ArrayAt a)) ps"
    and p: "mutates p = None \<or> mutates p = Some (ArrayAt a)" by simp_all
  show ?case
  proof (cases "mutates p")
    case None
    from exec_same [OF Cons.prems(2) None, of ch]
    have o: "fst (exec ch L p w1) = fst (exec ch L p w2)"
      and s: "same_logger L (snd (exec ch L p w1)) (snd (exec ch L p w2))" by simp_all
    from Cons.IH [OF ps s] o None show ?thesis
      by (simp add: split_beta Let_def)
  next
    case (Some t)
    with p have t: "t = ArrayAt a" by simp
    with Some obtain xs where px: "p = Mutate a xs" by (cases p) simp_all
    have s: "same_logger L (array_set a xs w1) w2"
      using assms Cons.prems(2) by (rule array_set_same)
    from Cons.IH [OF ps s] px show ?thesis
      by (simp add: split_beta Let_def)
  qed
qed

lemma exec_all_generate: "fst (exec_all ch L [Generate] w) = [Text (generate L w)]"
  by simp

lemma exec_all_write_generate:
  "fst (exec_all ch L [MutateRecord r v, Generate] w) = [Text (generate L (object_set r v w))]"
  by simp

text \<open>
  C6, as the spec states it, on the example: the first element of the array
  that \<^verbatim>\<open>snapshot(false)\<close> returns is the buffer's own first record. A caller
  that assigns to its field \<^verbatim>\<open>log\<close> changes what \<^verbatim>\<open>generate\<close> returns
  afterwards.
\<close>

theorem snapshot_record_write_reaches_buffer:
  "(case snapshot (Some False) example_logger example_world of
      (Formatted s, w') \<Rightarrow> False
    | (Records a, w') \<Rightarrow>
        generate example_logger w'
          = ''[08.03.2024, 21:07:21.64]: a'' @ [CHR 0x0A]
            @ ''WARN: [08.03.2024, 21:07:21.64] (X): b''
        \<and> generate example_logger
            (object_set (hd (cells w' a)) ((objs w' (hd (cells w' a)))\<lparr>log := ''HACKED''\<rparr>) w')
          = ''HACKED'' @ [CHR 0x0A] @ ''WARN: [08.03.2024, 21:07:21.64] (X): b''
        \<and> fst (exec_all plain_chalk example_logger
                 [MutateRecord (hd (cells w' a)) ((objs w' (hd (cells w' a)))\<lparr>log := ''HACKED''\<rparr>),
                  Generate] w')
          \<noteq> fst (exec_all plain_chalk example_logger [Generate] w'))"
proof -
  let ?w' = "example_world\<lparr>cells := (cells example_world)(3 := cells example_world 0),
                           fresh := 4\<rparr>"
  let ?v = "(objs ?w' (hd (cells ?w' 3)))\<lparr>log := ''HACKED''\<rparr>"
  have snap: "snapshot (Some False) example_logger example_world = (Records 3, ?w')"
    by (simp add: snapshot_def array_alloc_def example_fresh example_logarr)
  have h: "hd (cells ?w' 3) = 1"
    by (simp add: example_cells)
  have g0: "generate example_logger ?w'
          = ''[08.03.2024, 21:07:21.64]: a'' @ [CHR 0x0A]
            @ ''WARN: [08.03.2024, 21:07:21.64] (X): b''"
    using example_lines
    by (simp add: generate_join array_records_def example_logarr)
  have g1: "generate example_logger (object_set (hd (cells ?w' 3)) ?v ?w')
          = ''HACKED'' @ [CHR 0x0A] @ ''WARN: [08.03.2024, 21:07:21.64] (X): b''"
    using example_lines
    by (simp add: h generate_join array_records_def example_logarr object_set_def
        example_cells)
  have d: "fst (exec_all plain_chalk example_logger
                 [MutateRecord (hd (cells ?w' 3)) ?v, Generate] ?w')
          \<noteq> fst (exec_all plain_chalk example_logger [Generate] ?w')"
    by (simp only: exec_all_write_generate exec_all_generate g0 g1) simp
  show ?thesis
    unfolding snap prod.case snapshot_result.case
    by (intro conjI g0 g1 d)
qed

text \<open>
  C6, amended. \<^verbatim>\<open>snapshot(true)\<close> leaves the world as it is. \<^verbatim>\<open>snapshot(false)\<close>
  on a logger whose buffer exists returns a new array, which is not the buffer
  and has the buffer's elements, that is, references to the same records (a
  shallow copy); it adds this array to the store, and every other array, the
  records, the console and the subscribers stay as they are. Whatever the
  caller writes to the returned array itself (adding, removing or replacing
  elements), the buffer stays as it was; and in every program that follows,
  whose writes go to the returned array, each operation of the logger shows the
  value it shows in the program without the writes, and the two worlds at the
  end are the same to the logger. A write to a field of a record reached
  through the returned array is a write to the record of the buffer.
\<close>

theorem snapshot_shallow_copy:
  assumes "logarr L < fresh w"
    and "snapshot (Some False) L w = (Records a, w')"
    and "list_all (\<lambda>p. mutates p = None \<or> mutates p = Some (ArrayAt a)) ops"
  shows "snd (snapshot (Some True) L w) = w
    \<and> a \<noteq> logarr L
    \<and> cells w' a = cells w (logarr L)
    \<and> array_records a w' = array_records (logarr L) w
    \<and> (\<forall>b. b = a \<or> cells w' b = cells w b) \<and> objs w' = objs w
    \<and> console w' = console w \<and> subs w' = subs w
    \<and> cells (array_set a xs w') (logarr L) = cells w (logarr L)
    \<and> array_records (logarr L) (array_set a xs w') = array_records (logarr L) w
    \<and> fst (exec_all ch L ops w') = fst (exec_all ch L (filter (\<lambda>p. mutates p = None) ops) w')
    \<and> same_logger L (snd (exec_all ch L ops w'))
         (snd (exec_all ch L (filter (\<lambda>p. mutates p = None) ops) w'))
    \<and> array_records (logarr L) (object_set r v w') = map ((objs w)(r := v)) (cells w' a)"
proof -
  from assms(2) have a: "a = fresh w"
    and w': "w' = w\<lparr>cells := (cells w)(fresh w := cells w (logarr L)), fresh := Suc (fresh w)\<rparr>"
    by (auto simp add: snapshot_def array_alloc_def)
  from a assms(1) have ne: "a \<noteq> logarr L" by simp
  have t: "snd (snapshot (Some True) L w) = w" by (simp add: snapshot_def)
  have c: "cells w' a = cells w (logarr L)"
    using a w' by simp
  have r: "array_records a w' = array_records (logarr L) w"
    using a w' by (simp add: array_records_def)
  have o: "(\<forall>b. b = a \<or> cells w' b = cells w b) \<and> objs w' = objs w"
    using a w' by simp
  have k: "console w' = console w \<and> subs w' = subs w"
    using w' by simp
  have m: "cells (array_set a xs w') (logarr L) = cells w (logarr L)"
    using a w' ne by (simp add: array_set_def)
  have m': "array_records (logarr L) (array_set a xs w') = array_records (logarr L) w"
    using a w' ne by (simp add: array_set_def array_records_def)
  have s: "array_records (logarr L) (object_set r v w') = map ((objs w)(r := v)) (cells w' a)"
    using a w' ne by (simp add: object_set_def array_records_def)
  note e = exec_all_same [OF ne assms(3) same_logger_refl, of ch w']
  from t ne c r o k m m' e s show ?thesis by (intro conjI) blast+
qed

theorem snapshot_shallow_copy_witness:
  "logarr example_logger < fresh example_world
   \<and> snapshot (Some False) example_logger example_world
       = (Records 3, snd (snapshot (Some False) example_logger example_world))
   \<and> list_all (\<lambda>p. mutates p = None \<or> mutates p = Some (ArrayAt 3)) example_program
   \<and> snd (snapshot (Some True) example_logger example_world) = example_world
   \<and> cells (snd (snapshot (Some False) example_logger example_world)) 3 = [1, 2]
   \<and> cells (array_set 3 [] (snd (snapshot (Some False) example_logger example_world))) 0
       = cells example_world 0
   \<and> fst (exec_all plain_chalk example_logger example_program
            (snd (snapshot (Some False) example_logger example_world)))
       = fst (exec_all plain_chalk example_logger
               [Call (ErrorM, ''c'', None, example_date), Generate, Snapshot None, GenerateArray]
               (snd (snapshot (Some False) example_logger example_world)))"
proof -
  have h1: "logarr example_logger < fresh example_world"
    by (simp add: example_fresh example_logarr)
  have h3: "list_all (\<lambda>p. mutates p = None \<or> mutates p = Some (ArrayAt 3)) example_program"
    by (simp add: example_program_def)
  have f: "filter (\<lambda>p. mutates p = None) example_program
       = [Call (ErrorM, ''c'', None, example_date), Generate, Snapshot None, GenerateArray]"
    by (simp add: example_program_def)
  from snapshot_shallow_copy [OF h1 example_snapshot h3, of "[]" plain_chalk]
  have t: "snd (snapshot (Some True) example_logger example_world) = example_world"
    and c: "cells (snd (snapshot (Some False) example_logger example_world)) 3
              = cells example_world (logarr example_logger)"
    and m: "cells (array_set 3 [] (snd (snapshot (Some False) example_logger example_world)))
              (logarr example_logger) = cells example_world (logarr example_logger)"
    and e: "fst (exec_all plain_chalk example_logger example_program
            (snd (snapshot (Some False) example_logger example_world)))
       = fst (exec_all plain_chalk example_logger
               (filter (\<lambda>p. mutates p = None) example_program)
               (snd (snapshot (Some False) example_logger example_world)))"
    by blast+
  from c have c': "cells (snd (snapshot (Some False) example_logger example_world)) 3 = [1, 2]"
    by (simp only: example_logarr example_cells)
  from m have m': "cells (array_set 3 [] (snd (snapshot (Some False) example_logger example_world)))
              0 = cells example_world 0"
    by (simp only: example_logarr)
  from e have e': "fst (exec_all plain_chalk example_logger example_program
            (snd (snapshot (Some False) example_logger example_world)))
       = fst (exec_all plain_chalk example_logger
               [Call (ErrorM, ''c'', None, example_date), Generate, Snapshot None, GenerateArray]
               (snd (snapshot (Some False) example_logger example_world)))"
    by (simp only: f)
  show ?thesis
    by (intro conjI h1 example_snapshot h3 t c' m' e')
qed

section \<open>Notifications\<close>

text \<open>
  With one listener on \<^verbatim>\<open>"log"\<close>, whatever it is, a call of \<^verbatim>\<open>createLog\<close> calls
  it once: with the record, and with the buffer and the console as the call
  leaves them.
\<close>

lemma emit_single_listener:
  "listeners L = [(''log'', cb)] \<Longrightarrow>
   subs (emit ''log'' r L w) = cb (objs w r) (array_records (logarr L) w) (console w) (subs w)"
  by (simp add: emit_def notify_def)

lemma createLog_single_listener:
  assumes "listeners L = [(''log'', cb)]"
  shows "subs (createLog ch L ty m f d w) =
           cb (prepareLog ch d L \<lparr>msg = m, from = f, type = ty\<rparr>)
              (array_records (logarr L) (createLog ch L ty m f d w))
              (console (createLog ch L ty m f d w))
              (subs w)"
  by (simp add: createLog_def Let_def emit_single_listener [OF assms] console_log_def
      array_push_def array_shift_def object_alloc_def array_records_def)

lemma createLog_recorder:
  assumes "listeners L = [(''log'', recorder)]"
  shows "subs (createLog ch L ty m f d w) =
           subs w @ [(prepareLog ch d L \<lparr>msg = m, from = f, type = ty\<rparr>,
                      array_records (logarr L) (createLog ch L ty m f d w),
                      console (createLog ch L ty m f d w))]"
  by (simp add: createLog_single_listener [OF assms] recorder_def)

lemma invoke_recorder:
  assumes "listeners L = [(''log'', recorder)]"
  shows "subs (invoke ch L c w) =
           subs w @ [(record_of ch L c, array_records (logarr L) (invoke ch L c w),
                      console (invoke ch L c w))]"
  by (cases c) (simp add: invoke_createLog createLog_recorder [OF assms])

lemma invoke_last_record:
  "array_records (logarr L) (invoke ch L c w) \<noteq> []
   \<and> last (array_records (logarr L) (invoke ch L c w)) = record_of ch L c"
  by (simp add: array_records_def invoke_buffer invoke_objs insert_step_def)

lemma run_recorder:
  assumes "listeners L = [(''log'', recorder)]"
  shows "map fst (subs (run ch L cs w)) = map fst (subs w) @ map (record_of ch L) cs
    \<and> (list_all delivered_after_append (subs w) \<longrightarrow>
         list_all delivered_after_append (subs (run ch L cs w)))"
proof (induction cs arbitrary: w)
  case Nil
  then show ?case by simp
next
  case (Cons c cs)
  have "list_all delivered_after_append (subs w) \<longrightarrow>
          list_all delivered_after_append (subs (invoke ch L c w))"
    by (simp add: invoke_recorder [OF assms] delivered_after_append_def invoke_last_record
        invoke_console)
  moreover have "map fst (subs (invoke ch L c w)) = map fst (subs w) @ [record_of ch L c]"
    by (simp add: invoke_recorder [OF assms])
  ultimately show ?case using Cons.IH [of "invoke ch L c w"] by simp
qed

text \<open>
  C9. A logger with no listener, on which \<open>recorder\<close> subscribes to \<^verbatim>\<open>"log"\<close>
  before any call: after \<open>N\<close> record-creation calls the subscriber has been
  notified \<open>N\<close> times; the records it was given are, in order, the records
  built by the calls; and at each notification the record was the last one of
  the buffer and its line the last one of the console, so that it was delivered
  after the \<^verbatim>\<open>push\<close> and after \<^verbatim>\<open>console.log\<close>, inside the call.
\<close>

theorem one_notification_per_call:
  assumes "listeners L0 = []" and "subs w = []"
  shows "length (subs (run ch (on ''log'' recorder L0) cs w)) = length cs
    \<and> map fst (subs (run ch (on ''log'' recorder L0) cs w))
        = map (record_of ch (on ''log'' recorder L0)) cs
    \<and> list_all delivered_after_append (subs (run ch (on ''log'' recorder L0) cs w))"
proof -
  have l: "listeners (on ''log'' recorder L0) = [(''log'', recorder)]"
    using assms(1) by (simp add: on_def)
  from run_recorder [OF l, of ch cs w] assms(2)
  have m: "map fst (subs (run ch (on ''log'' recorder L0) cs w))
        = map (record_of ch (on ''log'' recorder L0)) cs"
    and d: "list_all delivered_after_append (subs (run ch (on ''log'' recorder L0) cs w))"
    by simp_all
  from m have "length (map fst (subs (run ch (on ''log'' recorder L0) cs w))) = length cs"
    by simp
  then have "length (subs (run ch (on ''log'' recorder L0) cs w)) = length cs" by simp
  with m d show ?thesis by simp
qed

theorem one_notification_per_call_witness:
  "listeners recorded_logger = [] \<and> subs recorded_world = []
   \<and> length (subs (run plain_chalk (on ''log'' recorder recorded_logger) example_calls
                      recorded_world)) = 2
   \<and> map (\<lambda>n. log (fst n))
        (subs (run plain_chalk (on ''log'' recorder recorded_logger) example_calls
                 recorded_world))
       = [''[08.03.2024, 21:07:21.64]: a'', ''WARN: [08.03.2024, 21:07:21.64] (X): b'']
   \<and> list_all delivered_after_append
        (subs (run plain_chalk (on ''log'' recorder recorded_logger) example_calls
                 recorded_world))"
proof -
  have h1: "listeners recorded_logger = []"
    by (simp add: recorded_logger_def Logger_new_eq)
  have h2: "subs recorded_world = []"
    by (simp add: recorded_world_def Logger_new_eq empty_world_def)
  have n: "length example_calls = 2"
    by (simp add: example_calls_def)
  have nc: "\<not> options_colored (on ''log'' recorder recorded_logger)"
    by (simp add: on_def recorded_logger_def Logger_new_eq options_colored_def)
  have v: "map (\<lambda>c. log (record_of plain_chalk (on ''log'' recorder recorded_logger) c))
             example_calls
       = [''[08.03.2024, 21:07:21.64]: a'', ''WARN: [08.03.2024, 21:07:21.64] (X): b'']"
    by (simp add: example_calls_def prepareLog_def Let_def nc example_date_def)
  from one_notification_per_call [OF h1 h2, of plain_chalk example_calls]
  have len: "length (subs (run plain_chalk (on ''log'' recorder recorded_logger) example_calls
                      recorded_world)) = length example_calls"
    and m: "map fst (subs (run plain_chalk (on ''log'' recorder recorded_logger) example_calls
                      recorded_world))
        = map (record_of plain_chalk (on ''log'' recorder recorded_logger)) example_calls"
    and d: "list_all delivered_after_append
        (subs (run plain_chalk (on ''log'' recorder recorded_logger) example_calls
                 recorded_world))"
    by simp_all
  have "map (\<lambda>n. log (fst n))
        (subs (run plain_chalk (on ''log'' recorder recorded_logger) example_calls
                 recorded_world))
      = map log (map fst (subs (run plain_chalk (on ''log'' recorder recorded_logger)
                 example_calls recorded_world)))"
    by simp
  also have "\<dots> = map (\<lambda>c. log (record_of plain_chalk (on ''log'' recorder recorded_logger) c))
             example_calls"
    by (simp only: m map_map comp_def)
  finally have lines: "map (\<lambda>n. log (fst n))
        (subs (run plain_chalk (on ''log'' recorder recorded_logger) example_calls
                 recorded_world))
       = [''[08.03.2024, 21:07:21.64]: a'', ''WARN: [08.03.2024, 21:07:21.64] (X): b'']"
    using v by simp
  from len n have len2: "length (subs (run plain_chalk (on ''log'' recorder recorded_logger)
                      example_calls recorded_world)) = 2"
    by simp
  show ?thesis by (intro conjI h1 h2 len2 lines d)
qed

end
